theory Spec2Isabelle
  imports Complex_Main
begin

section \<open>Python strings\<close>

text \<open>
  A Python \<open>str\<close> is a sequence of Unicode code points, so a caption is a list of
  natural numbers. \<open>py_str\<close> reads an ASCII literal as such a sequence.
\<close>

type_synonym pystr = "nat list"

definition py_str :: "string \<Rightarrow> pystr" where
  "py_str s = map of_char s"

text \<open>
  \<open>str.isspace\<close> for one code point: the code points CPython treats as whitespace in
  \<open>str.split()\<close> and \<open>str.strip()\<close> (U+0009..U+000D, U+001C..U+0020, U+0085, U+00A0,
  U+1680, U+2000..U+200A, U+2028, U+2029, U+202F, U+205F, U+3000).
\<close>

definition isspace :: "nat \<Rightarrow> bool" where
  "isspace c \<longleftrightarrow>
     (9 \<le> c \<and> c \<le> 13) \<or> (28 \<le> c \<and> c \<le> 32) \<or> c = 133 \<or> c = 160 \<or> c = 5760 \<or>
     (8192 \<le> c \<and> c \<le> 8202) \<or> c = 8232 \<or> c = 8233 \<or> c = 8239 \<or> c = 8287 \<or> c = 12288"

text \<open>\<open>s.strip()\<close>: whitespace removed at both ends.\<close>

definition py_strip :: "pystr \<Rightarrow> pystr" where
  "py_strip s = rev (dropWhile isspace (rev (dropWhile isspace s)))"

text \<open>
  \<open>s.split()\<close> with no argument: the maximal runs of non-whitespace code points, in
  order; \<open>cur\<close> is the word being scanned.
\<close>

fun py_split_acc :: "pystr \<Rightarrow> pystr \<Rightarrow> pystr list" where
  "py_split_acc cur [] = (if cur = [] then [] else [cur])"
| "py_split_acc cur (c # cs) =
     (if isspace c
      then (if cur = [] then py_split_acc [] cs else cur # py_split_acc [] cs)
      else py_split_acc (cur @ [c]) cs)"

definition py_split :: "pystr \<Rightarrow> pystr list" where
  "py_split s = py_split_acc [] s"

text \<open>\<open>" ".join(ws)\<close>, used to state what the lines of a wrapped caption are.\<close>

fun join_sp :: "pystr list \<Rightarrow> pystr" where
  "join_sp [] = []"
| "join_sp [w] = w"
| "join_sp (w # ws) = w @ [32] @ join_sp ws"

definition is_word :: "pystr \<Rightarrow> bool" where
  "is_word w \<longleftrightarrow> w \<noteq> [] \<and> list_all (\<lambda>c. \<not> isspace c) w"

section \<open>TextWrapper: \<open>wrap_text\<close>\<close>

text \<open>
  \<open>draw.textbbox((0, 0), s, font=font)\<close> belongs to Pillow; the box it returns for a
  string is a parameter \<open>bb\<close>. The measured width is \<open>bbox[2] - bbox[0]\<close>.
\<close>

type_synonym bbox = "int \<times> int \<times> int \<times> int"

definition text_width :: "(pystr \<Rightarrow> bbox) \<Rightarrow> pystr \<Rightarrow> int" where
  "text_width bb s = (case bb s of (x0, y0, x1, y1) \<Rightarrow> x1 - x0)"

text \<open>
  The \<open>for word in words\<close> loop of \<open>wrap_text\<close> with its two variables \<open>lines\<close> and
  \<open>current_line\<close>, followed by the final flush.
\<close>

fun wrap_loop :: "(pystr \<Rightarrow> bbox) \<Rightarrow> int \<Rightarrow> pystr list \<Rightarrow> pystr list \<Rightarrow> pystr \<Rightarrow> pystr list" where
  "wrap_loop bb max_width [] lines current_line =
     (if current_line \<noteq> [] then lines @ [current_line] else lines)"
| "wrap_loop bb max_width (word # words) lines current_line =
     (let test_line = py_strip (current_line @ [32] @ word);
          width = text_width bb test_line
      in if width \<le> max_width
         then wrap_loop bb max_width words lines test_line
         else wrap_loop bb max_width words
                (if current_line \<noteq> [] then lines @ [current_line] else lines) word)"

definition wrap_text :: "pystr \<Rightarrow> (pystr \<Rightarrow> bbox) \<Rightarrow> int \<Rightarrow> pystr list" where
  "wrap_text text bb max_width = wrap_loop bb max_width (py_split text) [] []"

section \<open>Style constants and number conversion\<close>

text \<open>
  The decimal constants of \<open>TIKTOK_STYLE\<close> are read as exact rationals. \<open>int(x)\<close> on a
  Python float truncates toward zero.
\<close>

record style =
  font_size_ratio :: rat
  font_size_min :: int
  font_size_max :: int
  line_height_ratio :: rat
  fill_color :: string
  stroke_color :: string
  stroke_width :: int
  max_width_ratio :: rat
  margin_top_ratio :: rat

definition TIKTOK_STYLE :: style where
  "TIKTOK_STYLE =
     \<lparr> font_size_ratio = 51 / 1000,
       font_size_min = 38,
       font_size_max = 60,
       line_height_ratio = 106 / 100,
       fill_color = ''#FFFFFF'',
       stroke_color = ''#000000'',
       stroke_width = 4,
       max_width_ratio = 88 / 100,
       margin_top_ratio = 18 / 100 \<rparr>"

definition py_int :: "rat \<Rightarrow> int" where
  "py_int x = (if 0 \<le> x then \<lfloor>x\<rfloor> else \<lceil>x\<rceil>)"

section \<open>FontResolver: \<open>get_font\<close>\<close>

datatype py_exception = OSError | FileNotFoundError | UnidentifiedImageError | ValueError

text \<open>
  What \<open>get_font\<close> asks of its surroundings: whether a path exists, what
  \<open>ImageFont.truetype(path, size)\<close> gives (a font or an exception), the font of
  \<open>ImageFont.load_default()\<close>, and the directory of the module, under which \<open>FONT_PATHS\<close>
  are built.
\<close>

record 'f font_env =
  module_dir :: string
  path_exists :: "string \<Rightarrow> bool"
  truetype :: "string \<Rightarrow> int \<Rightarrow> py_exception + 'f"
  load_default :: 'f

definition FONT_PATHS :: "'f font_env \<Rightarrow> string list" where
  "FONT_PATHS env =
     [ module_dir env @ ''/fonts/TikTokSans36pt-SemiBold.ttf'',
       module_dir env @ ''/fonts/TikTokSans36pt-Bold.ttf'',
       module_dir env @ ''/fonts/TikTokSans16pt-SemiBold.ttf'' ]"

text \<open>
  The state \<open>get_font\<close> works on: the module-level dictionary \<open>_font_cache\<close>, and the
  calls of \<open>ImageFont.truetype\<close> made so far, in order.
\<close>

record 'f font_state =
  font_cache :: "string \<times> int \<rightharpoonup> 'f"
  truetype_calls :: "(string \<times> int) list"

text \<open>The \<open>for font_path in FONT_PATHS\<close> loop and the fallback after it.\<close>

fun try_fonts :: "'f font_env \<Rightarrow> int \<Rightarrow> string list \<Rightarrow> 'f font_state \<Rightarrow> 'f \<times> 'f font_state" where
  "try_fonts env sz [] st = (load_default env, st)"
| "try_fonts env sz (font_path # rest) st =
     (if path_exists env font_path
      then (let st1 = st\<lparr>truetype_calls := truetype_calls st @ [(font_path, sz)]\<rparr>
            in case truetype env font_path sz of
                 Inr font \<Rightarrow>
                   (font, st1\<lparr>font_cache := (font_cache st1)((''tiktok'', sz) \<mapsto> font)\<rparr>)
               | Inl e \<Rightarrow> try_fonts env sz rest st1)
      else try_fonts env sz rest st)"

definition get_font :: "'f font_env \<Rightarrow> int \<Rightarrow> 'f font_state \<Rightarrow> 'f \<times> 'f font_state" where
  "get_font env sz st =
     (let cache_key = (''tiktok'', sz)
      in case font_cache st cache_key of
           Some font \<Rightarrow> (font, st)
         | None \<Rightarrow> try_fonts env sz (FONT_PATHS env) st)"

text \<open>
  The first candidate of a list that exists and loads at the size, as the specification
  words it.
\<close>

definition loads_at :: "'f font_env \<Rightarrow> int \<Rightarrow> string \<Rightarrow> bool" where
  "loads_at env sz p \<longleftrightarrow> path_exists env p \<and> \<not> isl (truetype env p sz)"

definition first_loadable :: "'f font_env \<Rightarrow> int \<Rightarrow> string list \<Rightarrow> 'f option" where
  "first_loadable env sz ps =
     (case find (loads_at env sz) ps of
        None \<Rightarrow> None
      | Some p \<Rightarrow> (case truetype env p sz of Inr font \<Rightarrow> Some font | Inl e \<Rightarrow> None))"

text \<open>
  A cache that earlier calls of \<open>get_font\<close> have filled in this environment: an entry
  under \<open>("tiktok", size)\<close> is the font of the first loadable candidate at that size.
\<close>

definition cache_ok :: "'f font_env \<Rightarrow> 'f font_state \<Rightarrow> bool" where
  "cache_ok env st \<longleftrightarrow>
     (\<forall>sz font. font_cache st (''tiktok'', sz) = Some font \<longrightarrow>
        first_loadable env sz (FONT_PATHS env) = Some font)"

section \<open>LayoutEngine and \<open>burn_caption\<close>\<close>

text \<open>
  Pillow is outside the repository. What \<open>burn_caption\<close> uses of it is a parameter:
  the font environment of \<open>get_font\<close>; \<open>draw.textbbox((0, 0), s, font=font)\<close>; the size of
  an opened image; whether \<open>save\<close> to a path succeeds; and \<open>paint\<close>, which stands for the
  pixel work (convert to RGBA, resize by the scale, \<open>draw.text\<close> for each placed line with
  the stroke, resize back, flatten onto black).
\<close>

record ('f, 'img) pil =
  fonts :: "'f font_env"
  textbbox :: "'f \<Rightarrow> pystr \<Rightarrow> bbox"
  img_size :: "'img \<Rightarrow> int \<times> int"
  paint :: "'img \<Rightarrow> int \<Rightarrow> 'f \<Rightarrow> int \<Rightarrow> (int \<times> int \<times> pystr) list \<Rightarrow> py_exception + 'img"
  can_save :: "string \<Rightarrow> bool"

text \<open>
  The \<open>for line in lines\<close> loop of \<open>burn_caption\<close>: each line is centred horizontally
  and drawn at the running \<open>y\<close>, which then advances by \<open>line_height\<close>. The result is the
  list of \<open>draw.text\<close> calls as \<open>(x, y, line)\<close>.
\<close>

fun draw_lines :: "(pystr \<Rightarrow> bbox) \<Rightarrow> int \<Rightarrow> int \<Rightarrow> int \<Rightarrow> pystr list \<Rightarrow> (int \<times> int \<times> pystr) list" where
  "draw_lines bb scaled_width line_height y [] = []"
| "draw_lines bb scaled_width line_height y (line # lines) =
     (let line_width = text_width bb line;
          x = (scaled_width - line_width) div 2
      in (x, y, line) # draw_lines bb scaled_width line_height (y + line_height) lines)"

text \<open>
  The values \<open>burn_caption\<close> computes between opening the image and drawing, under the
  names of its local variables.
\<close>

record 'f layout =
  base_size :: int
  font_size :: int
  font :: 'f
  max_width :: int
  lines :: "pystr list"
  line_height :: int
  total_height :: int
  start_y :: int
  scaled_stroke_width :: int
  texts :: "(int \<times> int \<times> pystr) list"

definition caption_layout ::
  "('f, 'img) pil \<Rightarrow> 'f font_state \<Rightarrow> int \<times> int \<Rightarrow> pystr \<Rightarrow> string \<Rightarrow> int \<Rightarrow> 'f layout \<times> 'f font_state" where
  "caption_layout pil st orig_size caption position supersample =
     (let scale = supersample;
          scaled_width = fst orig_size * scale;
          scaled_height = snd orig_size * scale;
          base_size0 = py_int (of_int (fst orig_size) * font_size_ratio TIKTOK_STYLE);
          base_size1 = max (font_size_min TIKTOK_STYLE) (min (font_size_max TIKTOK_STYLE) base_size0);
          font_size1 = base_size1 * scale;
          (font1, st1) = get_font (fonts pil) font_size1 st;
          max_width1 = py_int (of_int scaled_width * max_width_ratio TIKTOK_STYLE);
          lines1 = wrap_text caption (textbbox pil font1) max_width1;
          line_height1 = py_int (of_int font_size1 * line_height_ratio TIKTOK_STYLE);
          total_height1 = int (length lines1) * line_height1;
          y = (if position = ''center'' then (scaled_height - total_height1) div 2
               else if position = ''bottom'' then
                 (let margin = py_int (of_int scaled_height * (12 / 100))
                  in scaled_height - margin - total_height1)
               else py_int (of_int scaled_height * margin_top_ratio TIKTOK_STYLE));
          stroke_width1 = stroke_width TIKTOK_STYLE * scale
      in (\<lparr> base_size = base_size1, font_size = font_size1, font = font1,
             max_width = max_width1, lines = lines1, line_height = line_height1,
             total_height = total_height1, start_y = y,
             scaled_stroke_width = stroke_width1,
             texts = draw_lines (textbbox pil font1) scaled_width line_height1 y lines1 \<rparr>,
          st1))"

text \<open>
  \<open>burn_caption\<close> on a world made of the font state and the image files. \<open>output_path\<close>
  is \<open>None\<close> or a path; the result is the returned path or the exception raised, with the
  font state and the files as the call leaves them.
\<close>

definition burn_caption ::
  "('f, 'img) pil \<Rightarrow> 'f font_state \<Rightarrow> (string \<rightharpoonup> 'img) \<Rightarrow> string \<Rightarrow> pystr \<Rightarrow> string option \<Rightarrow>
   string \<Rightarrow> int \<Rightarrow> (py_exception + string) \<times> 'f font_state \<times> (string \<rightharpoonup> 'img)" where
  "burn_caption pil st files image_path caption output_path_arg position supersample =
     (let output_path = (case output_path_arg of None \<Rightarrow> image_path | Some p \<Rightarrow> p)
      in if caption = [] \<or> py_strip caption = [] then (Inr image_path, st, files)
         else case files image_path of
                None \<Rightarrow> (Inl FileNotFoundError, st, files)
              | Some img \<Rightarrow>
                  (let (lay, st1) = caption_layout pil st (img_size pil img) caption position supersample
                   in case paint pil img supersample (font lay) (scaled_stroke_width lay) (texts lay) of
                        Inl e \<Rightarrow> (Inl e, st1, files)
                      | Inr img_final \<Rightarrow>
                          if can_save pil output_path
                          then (Inr output_path, st1, files(output_path \<mapsto> img_final))
                          else (Inl OSError, st1, files)))"

text \<open>
  The arithmetic the specification names: \<open>round(n \<times> r)\<close>, to the nearest integer, and
  the clamp of a value between two bounds.
\<close>

definition clamp :: "int \<Rightarrow> int \<Rightarrow> int \<Rightarrow> int" where
  "clamp x lo hi = max lo (min hi x)"

definition spec_round :: "int \<Rightarrow> rat \<Rightarrow> int" where
  "spec_round n r = round (of_int n * r)"

definition spec_font_size :: "int \<Rightarrow> int" where
  "spec_font_size w = clamp (spec_round w (51 / 1000)) 38 60"

section \<open>Concrete surroundings for evaluation\<close>

text \<open>
  Font environments in which a font is its pixel size, except the built-in default font,
  which is \<open>10\<close> whatever size was asked for. In \<open>bold_only\<close> the first candidate exists
  but does not load, the second loads and the third is missing; in \<open>corrupt_fonts\<close> only
  the first candidate exists and it does not load; in \<open>no_fonts\<close> no candidate exists.
\<close>

definition bold_only :: "int font_env" where
  "bold_only =
     \<lparr> module_dir = ''/app'',
       path_exists = (\<lambda>p. p = ''/app/fonts/TikTokSans36pt-SemiBold.ttf'' \<or>
                           p = ''/app/fonts/TikTokSans36pt-Bold.ttf''),
       truetype = (\<lambda>p sz. if p = ''/app/fonts/TikTokSans36pt-Bold.ttf'' then Inr sz else Inl OSError),
       load_default = 10 \<rparr>"

definition corrupt_fonts :: "int font_env" where
  "corrupt_fonts =
     \<lparr> module_dir = ''/app'',
       path_exists = (\<lambda>p. p = ''/app/fonts/TikTokSans36pt-SemiBold.ttf''),
       truetype = (\<lambda>p sz. Inl OSError),
       load_default = 10 \<rparr>"

definition no_fonts :: "int font_env" where
  "no_fonts =
     \<lparr> module_dir = ''/app'',
       path_exists = (\<lambda>p. False),
       truetype = (\<lambda>p sz. Inl OSError),
       load_default = 10 \<rparr>"

definition empty_state :: "int font_state" where
  "empty_state = \<lparr> font_cache = Map.empty, truetype_calls = [] \<rparr>"

text \<open>
  A fixed-pitch measure: every code point of a string is as wide as the font's number.
\<close>

definition fixed_pitch :: "int \<Rightarrow> pystr \<Rightarrow> bbox" where
  "fixed_pitch f s = (0, 0, int (length s) * f, f)"

text \<open>
  A Pillow in which an image is its size and painting leaves it as it is, with the fonts
  of \<open>no_fonts\<close>.
\<close>

definition demo_pil :: "(int, int \<times> int) pil" where
  "demo_pil =
     \<lparr> fonts = no_fonts,
       textbbox = fixed_pitch,
       img_size = (\<lambda>img. img),
       paint = (\<lambda>img scale f sw ts. Inr img),
       can_save = (\<lambda>p. True) \<rparr>"

section \<open>Strings: stripping, splitting, joining\<close>

lemma dropWhile_hd: "xs \<noteq> [] \<Longrightarrow> \<not> P (hd xs) \<Longrightarrow> dropWhile P xs = xs"
  by (cases xs) auto

lemma strip_all_space: "list_all isspace s \<Longrightarrow> py_strip s = []"
proof -
  assume "list_all isspace s"
  then have "dropWhile isspace s = []" by (simp add: list_all_iff)
  then show ?thesis unfolding py_strip_def by (simp only: rev.simps dropWhile.simps)
qed

lemma strip_id: "s \<noteq> [] \<Longrightarrow> \<not> isspace (hd s) \<Longrightarrow> \<not> isspace (last s) \<Longrightarrow> py_strip s = s"
  by (simp add: py_strip_def dropWhile_hd hd_rev)

lemma split_acc_word:
  "list_all (\<lambda>c. \<not> isspace c) w \<Longrightarrow> py_split_acc cur (w @ rest) = py_split_acc (cur @ w) rest"
  by (induction w arbitrary: cur) auto

lemma split_word: "is_word w \<Longrightarrow> py_split w = [w]"
  using split_acc_word[of w "[]" "[]"] by (simp add: py_split_def is_word_def)

lemma split_join: "list_all is_word ws \<Longrightarrow> py_split (join_sp ws) = ws"
proof (induction ws rule: join_sp.induct)
  case 1
  then show ?case by (simp add: py_split_def)
next
  case (2 w)
  then show ?case by (simp add: split_word)
next
  case (3 w v ws)
  have "py_split (join_sp (w # v # ws)) = py_split_acc w (32 # join_sp (v # ws))"
    using 3(2) split_acc_word[of w "[]"] by (simp add: py_split_def is_word_def)
  also have "\<dots> = w # py_split (join_sp (v # ws))"
    using 3(2) by (simp add: py_split_def is_word_def isspace_def)
  finally show ?case using 3 by simp
qed

lemma split_acc_words:
  "list_all (\<lambda>c. \<not> isspace c) cur \<Longrightarrow> list_all is_word (py_split_acc cur s)"
  by (induction cur s rule: py_split_acc.induct) (auto simp: is_word_def)

lemma split_words: "list_all is_word (py_split s)"
  by (simp add: py_split_def split_acc_words)

lemma join_sp_snoc: "join_sp (cw @ [w]) = (if cw = [] then w else join_sp cw @ [32] @ w)"
  by (induction cw rule: join_sp.induct) auto

lemma join_sp_nonempty: "cw \<noteq> [] \<Longrightarrow> list_all is_word cw \<Longrightarrow> join_sp cw \<noteq> []"
  by (induction cw rule: join_sp.induct) (auto simp: is_word_def)

lemma join_sp_hd: "cw \<noteq> [] \<Longrightarrow> list_all is_word cw \<Longrightarrow> \<not> isspace (hd (join_sp cw))"
  by (induction cw rule: join_sp.induct) (auto simp: is_word_def list_all_iff)

lemma word_hd_last: "is_word w \<Longrightarrow> \<not> isspace (hd w) \<and> \<not> isspace (last w)"
  by (auto simp: is_word_def list_all_iff)

text \<open>
  The candidate line of the loop: when the current line is a join of words, stripping
  \<open>f"{current_line} {word}"\<close> gives the join with the word added.
\<close>

lemma test_line_join:
  assumes "list_all is_word cw" "is_word w"
  shows "py_strip (join_sp cw @ [32] @ w) = join_sp (cw @ [w])"
proof (cases "cw = []")
  case True
  have "isspace 32" by (simp add: isspace_def)
  moreover have "w \<noteq> []" using assms(2) by (simp add: is_word_def)
  ultimately have "dropWhile isspace (32 # w) = w"
    using word_hd_last[OF assms(2)] by (simp add: dropWhile_hd)
  moreover have "dropWhile isspace (rev w) = rev w"
    using word_hd_last[OF assms(2)] \<open>w \<noteq> []\<close> by (simp add: dropWhile_hd hd_rev)
  ultimately show ?thesis using True by (simp add: py_strip_def)
next
  case False
  let ?s = "join_sp cw @ [32] @ w"
  have ne: "join_sp cw \<noteq> []" using False assms(1) by (rule join_sp_nonempty)
  have "w \<noteq> []" using assms(2) by (simp add: is_word_def)
  have "\<not> isspace (hd ?s)" using ne join_sp_hd[OF False assms(1)] by simp
  moreover have "\<not> isspace (last ?s)" using word_hd_last[OF assms(2)] \<open>w \<noteq> []\<close> by simp
  ultimately have "py_strip ?s = ?s" by (intro strip_id) auto
  then show ?thesis using False by (simp add: join_sp_snoc)
qed

section \<open>The wrapping loop\<close>

text \<open>
  The invariant of the loop. With the current line a join of the words \<open>cw\<close>, the loop
  adds to \<open>acc\<close> the joins of groups \<open>gs\<close> of words; the groups, laid end to end, are
  \<open>cw\<close> followed by the words still to come, and each group fits the width or is a
  single word.
\<close>

lemma wrap_loop_groups:
  assumes "list_all is_word ws" "list_all is_word cw"
    and "cw = [] \<or> text_width bb (join_sp cw) \<le> mw \<or> length cw = 1"
  shows "\<exists>gs. wrap_loop bb mw ws acc (join_sp cw) = acc @ map join_sp gs \<and>
              concat gs = cw @ ws \<and>
              (\<forall>g\<in>set gs. g \<noteq> [] \<and> (text_width bb (join_sp g) \<le> mw \<or> length g = 1))"
  using assms
proof (induction ws arbitrary: acc cw)
  case Nil
  show ?case
  proof (cases "cw = []")
    case True
    then show ?thesis by (intro exI[of _ "[]"]) simp
  next
    case False
    then have "join_sp cw \<noteq> []" using Nil(2) by (rule join_sp_nonempty)
    then show ?thesis using False Nil(3) by (intro exI[of _ "[cw]"]) simp
  qed
next
  case (Cons w ws)
  have w: "is_word w" and ws: "list_all is_word ws" using Cons.prems(1) by simp_all
  have tl: "py_strip (join_sp cw @ [32] @ w) = join_sp (cw @ [w])"
    using Cons.prems(2) w by (rule test_line_join)
  show ?case
  proof (cases "text_width bb (join_sp (cw @ [w])) \<le> mw")
    case True
    have "list_all is_word (cw @ [w])" using Cons.prems(2) w by simp
    from Cons.IH[OF ws this, of acc] True
    obtain gs where gs: "wrap_loop bb mw ws acc (join_sp (cw @ [w])) = acc @ map join_sp gs"
      "concat gs = (cw @ [w]) @ ws"
      "\<forall>g\<in>set gs. g \<noteq> [] \<and> (text_width bb (join_sp g) \<le> mw \<or> length g = 1)"
      by blast
    have "wrap_loop bb mw (w # ws) acc (join_sp cw) = wrap_loop bb mw ws acc (join_sp (cw @ [w]))"
      using True tl by (simp add: Let_def del: append.simps)
    then show ?thesis using gs by (intro exI[of _ gs]) simp
  next
    case False
    let ?acc = "if join_sp cw \<noteq> [] then acc @ [join_sp cw] else acc"
    have step: "wrap_loop bb mw (w # ws) acc (join_sp cw) = wrap_loop bb mw ws ?acc (join_sp [w])"
      using False tl by (simp add: Let_def del: append.simps)
    have "list_all is_word [w]" using w by simp
    from Cons.IH[OF ws this, of ?acc]
    obtain gs where gs: "wrap_loop bb mw ws ?acc (join_sp [w]) = ?acc @ map join_sp gs"
      "concat gs = [w] @ ws"
      "\<forall>g\<in>set gs. g \<noteq> [] \<and> (text_width bb (join_sp g) \<le> mw \<or> length g = 1)"
      by auto
    show ?thesis
    proof (cases "cw = []")
      case True
      then show ?thesis using step gs by (intro exI[of _ gs]) simp
    next
      case cw: False
      then have "join_sp cw \<noteq> []" using Cons.prems(2) by (rule join_sp_nonempty)
      then show ?thesis using step gs cw Cons.prems(3) by (intro exI[of _ "cw # gs"]) simp
    qed
  qed
qed

lemma wrap_text_groups:
  "\<exists>gs. wrap_text s bb mw = map join_sp gs \<and> concat gs = py_split s \<and>
        (\<forall>g\<in>set gs. g \<noteq> [] \<and> (text_width bb (join_sp g) \<le> mw \<or> length g = 1))"
  using wrap_loop_groups[of "py_split s" "[]" bb mw "[]"] split_words[of s]
  by (simp add: wrap_text_def)

lemma concat_split_join:
  "list_all is_word (concat gs) \<Longrightarrow> concat (map py_split (map join_sp gs)) = concat gs"
  by (induction gs) (simp_all add: split_join)

lemma wrap_loop_nonempty:
  "[] \<notin> set acc \<Longrightarrow> [] \<notin> set (wrap_loop bb mw ws acc cur)"
  by (induction ws arbitrary: acc cur) (auto simp: Let_def)

section \<open>Properties of \<open>wrap_text\<close>\<close>

text \<open>
  C4. Whatever the caption, the measuring function and the maximum width, every line
  returned by \<open>wrap_text\<close> measures at most the maximum width, unless the line is exactly
  one word of the caption, emitted as it stands.
\<close>

theorem wrap_text_lines_fit:
  "\<forall>line\<in>set (wrap_text caption bb max_w).
     text_width bb line \<le> max_w \<or> (py_split line = [line] \<and> line \<in> set (py_split caption))"
proof
  fix line
  assume l: "line \<in> set (wrap_text caption bb max_w)"
  obtain gs where gs: "wrap_text caption bb max_w = map join_sp gs" "concat gs = py_split caption"
    "\<forall>g\<in>set gs. g \<noteq> [] \<and> (text_width bb (join_sp g) \<le> max_w \<or> length g = 1)"
    using wrap_text_groups[of caption bb max_w] by blast
  from l gs(1) obtain g where g: "g \<in> set gs" "line = join_sp g" by auto
  show "text_width bb line \<le> max_w \<or> (py_split line = [line] \<and> line \<in> set (py_split caption))"
  proof (cases "text_width bb line \<le> max_w")
    case True
    then show ?thesis by simp
  next
    case False
    then have "length g = 1" using g gs(3) by auto
    then obtain w where w: "g = [w]" by (cases g) auto
    then have "[w] \<in> set gs" using g(1) by simp
    then have "w \<in> set (concat gs)" by force
    then have in_words: "w \<in> set (py_split caption)" using gs(2) by simp
    then have "is_word w" using split_words[of caption] by (simp add: list_all_iff)
    then show ?thesis using w g(2) in_words by (simp add: split_word)
  qed
qed

theorem wrap_text_lines_fit_witness:
  "wrap_text (py_str ''a  extraordinarily long day'') (fixed_pitch 10) 80 =
     [py_str ''a'', py_str ''extraordinarily'', py_str ''long day'']
   \<and> text_width (fixed_pitch 10) (py_str ''a'') \<le> 80
   \<and> \<not> text_width (fixed_pitch 10) (py_str ''extraordinarily'') \<le> 80
   \<and> py_split (py_str ''extraordinarily'') = [py_str ''extraordinarily'']
   \<and> py_str ''extraordinarily'' \<in> set (py_split (py_str ''a  extraordinarily long day''))
   \<and> text_width (fixed_pitch 10) (py_str ''long day'') \<le> 80"
proof -
  have w: "wrap_text (py_str ''a  extraordinarily long day'') (fixed_pitch 10) 80 =
     [py_str ''a'', py_str ''extraordinarily'', py_str ''long day'']"
    by (simp add: py_str_def wrap_text_def py_split_def isspace_def py_strip_def text_width_def
        fixed_pitch_def Let_def)
  have t: "\<not> text_width (fixed_pitch 10) (py_str ''extraordinarily'') \<le> 80"
     "text_width (fixed_pitch 10) (py_str ''a'') \<le> 80"
     "text_width (fixed_pitch 10) (py_str ''long day'') \<le> 80"
    by (simp_all add: py_str_def text_width_def fixed_pitch_def)
  show ?thesis
    using wrap_text_lines_fit[of "py_str ''a  extraordinarily long day''" "fixed_pitch 10" 80] w t
    by simp
qed

text \<open>
  C5. The words of the lines returned by \<open>wrap_text\<close>, taken line after line, are the
  words of the caption as \<open>split()\<close> gives them, in order and unchanged, so joining them
  with single spaces gives the whitespace-collapsed caption; and the empty caption gives
  no line.
\<close>

theorem wrap_text_preserves_words:
  "concat (map py_split (wrap_text caption bb max_w)) = py_split caption
   \<and> join_sp (concat (map py_split (wrap_text caption bb max_w))) = join_sp (py_split caption)
   \<and> wrap_text [] bb max_w = []"
proof -
  obtain gs where gs: "wrap_text caption bb max_w = map join_sp gs" "concat gs = py_split caption"
    using wrap_text_groups[of caption bb max_w] by blast
  have "list_all is_word (concat gs)" using gs(2) split_words[of caption] by simp
  then have "concat (map py_split (wrap_text caption bb max_w)) = py_split caption"
    using gs concat_split_join[of gs] by simp
  moreover have "wrap_text [] bb max_w = []" by (simp add: wrap_text_def py_split_def)
  ultimately show ?thesis by simp
qed

text \<open>
  C10. Whatever the text (empty and whitespace-only text included), the measuring
  function and the maximum width, no line returned by \<open>wrap_text\<close> is the empty string.
\<close>

theorem wrap_text_no_empty_line:
  "[] \<notin> set (wrap_text caption bb max_w)"
  by (simp add: wrap_text_def wrap_loop_nonempty)

section \<open>The empty caption\<close>

text \<open>
  C1. When the caption is empty or made of whitespace only, \<open>burn_caption\<close> returns the
  path of the input image and leaves every file and the font state as they were, whatever
  the output path, the position and the supersample factor: what it hands back is the
  input image itself.
\<close>

theorem burn_caption_blank_noop:
  "list_all isspace caption \<Longrightarrow>
   burn_caption pil st files image_path caption output_path position supersample =
     (Inr image_path, st, files)"
  by (simp add: burn_caption_def strip_all_space)

theorem burn_caption_blank_noop_witness:
  "list_all isspace (py_str ''   '') \<and> list_all isspace []
   \<and> burn_caption demo_pil empty_state [''in.png'' \<mapsto> (1080, 1920)] ''in.png'' (py_str ''   '')
        (Some ''out.png'') ''bottom'' 3 = (Inr ''in.png'', empty_state, [''in.png'' \<mapsto> (1080, 1920)])
   \<and> burn_caption demo_pil empty_state [''in.png'' \<mapsto> (1080, 1920)] ''in.png'' []
        None ''upper'' 2 = (Inr ''in.png'', empty_state, [''in.png'' \<mapsto> (1080, 1920)])"
proof -
  have a: "list_all isspace (py_str ''   '')" by (simp add: py_str_def isspace_def)
  have b: "list_all isspace []" by simp
  show ?thesis
    using a b
      burn_caption_blank_noop[OF a, of demo_pil empty_state "[''in.png'' \<mapsto> (1080, 1920)]"
        "''in.png''" "Some ''out.png''" "''bottom''" 3]
      burn_caption_blank_noop[OF b, of demo_pil empty_state "[''in.png'' \<mapsto> (1080, 1920)]"
        "''in.png''" None "''upper''" 2]
    by simp
qed

section \<open>Arithmetic of the layout\<close>

lemma floor_numeral_div_rat: "\<lfloor>numeral a / numeral b :: rat\<rfloor> = numeral a div numeral b"
  using floor_divide_of_int_eq[of "numeral a" "numeral b", where ?'a = rat] by simp

text \<open>On a non-negative product, \<open>int(k * p/q)\<close> is the integer quotient.\<close>

lemma py_int_ratio:
  assumes "0 \<le> k" "0 \<le> p" "0 < q"
  shows "py_int (of_int k * (of_int p / of_int q)) = (k * p) div q"
proof -
  have "(0::rat) \<le> of_int k * (of_int p / of_int q)" using assms by simp
  moreover have "(of_int k * (of_int p / of_int q) :: rat) = of_int (k * p) / of_int q" by simp
  ultimately show ?thesis
    unfolding py_int_def by (simp only: if_True floor_divide_of_int_eq)
qed

lemma py_int_51: "0 \<le> k \<Longrightarrow> py_int (of_int k * (51 / 1000)) = (k * 51) div 1000"
  using py_int_ratio[of k 51 1000] by simp

lemma py_int_106: "0 \<le> k \<Longrightarrow> py_int (of_int k * (106 / 100)) = (k * 106) div 100"
  using py_int_ratio[of k 106 100] by simp

lemma py_int_18: "0 \<le> k \<Longrightarrow> py_int (of_int k * (18 / 100)) = (k * 18) div 100"
  using py_int_ratio[of k 18 100] by simp

lemma py_int_12: "0 \<le> k \<Longrightarrow> py_int (of_int k * (12 / 100)) = (k * 12) div 100"
  using py_int_ratio[of k 12 100] by simp

lemma py_int_nonpos: "x \<le> 0 \<Longrightarrow> py_int x \<le> 0"
  unfolding py_int_def by auto

text \<open>The fields of the layout, one equation for each local variable.\<close>

lemma layout_base_size:
  "base_size (fst (caption_layout pil st (w, h) caption position supersample)) =
     max 38 (min 60 (py_int (of_int w * (51 / 1000))))"
  by (simp add: caption_layout_def Let_def split_def TIKTOK_STYLE_def)

lemma layout_font_size:
  "font_size (fst (caption_layout pil st (w, h) caption position supersample)) =
     base_size (fst (caption_layout pil st (w, h) caption position supersample)) * supersample"
  by (simp add: caption_layout_def Let_def split_def TIKTOK_STYLE_def)

lemma layout_line_height:
  "line_height (fst (caption_layout pil st (w, h) caption position supersample)) =
     py_int (of_int (font_size (fst (caption_layout pil st (w, h) caption position supersample))) * (106 / 100))"
  by (simp add: caption_layout_def Let_def split_def TIKTOK_STYLE_def)

lemma layout_total_height:
  "total_height (fst (caption_layout pil st (w, h) caption position supersample)) =
     int (length (lines (fst (caption_layout pil st (w, h) caption position supersample)))) *
     line_height (fst (caption_layout pil st (w, h) caption position supersample))"
  by (simp add: caption_layout_def Let_def split_def TIKTOK_STYLE_def)

lemma layout_start_y:
  "start_y (fst (caption_layout pil st (w, h) caption position supersample)) =
     (if position = ''center''
      then (h * supersample - total_height (fst (caption_layout pil st (w, h) caption position supersample))) div 2
      else if position = ''bottom''
      then h * supersample - py_int (of_int (h * supersample) * (12 / 100))
           - total_height (fst (caption_layout pil st (w, h) caption position supersample))
      else py_int (of_int (h * supersample) * (18 / 100)))"
  by (simp add: caption_layout_def Let_def split_def TIKTOK_STYLE_def)

lemma layout_texts:
  "texts (fst (caption_layout pil st (w, h) caption position supersample)) =
     draw_lines (textbbox pil (font (fst (caption_layout pil st (w, h) caption position supersample))))
       (w * supersample)
       (line_height (fst (caption_layout pil st (w, h) caption position supersample)))
       (start_y (fst (caption_layout pil st (w, h) caption position supersample)))
       (lines (fst (caption_layout pil st (w, h) caption position supersample)))"
  by (simp add: caption_layout_def Let_def split_def TIKTOK_STYLE_def)

text \<open>The drawing loop puts line \<open>i\<close> at \<open>y + i * line_height\<close>.\<close>

lemma draw_lines_ys:
  "map (\<lambda>t. fst (snd t)) (draw_lines bb sw lh y ls) = map (\<lambda>i. y + int i * lh) [0..<length ls]"
proof (induction ls arbitrary: y)
  case Nil
  show ?case by simp
next
  case (Cons l ls)
  have "map (\<lambda>i. y + int i * lh) [0..<length (l # ls)] =
        y # map (\<lambda>i. y + int (Suc i) * lh) [0..<length ls]"
    by (simp add: upt_conv_Cons map_Suc_upt[symmetric] del: upt_Suc)
  also have "map (\<lambda>i. y + int (Suc i) * lh) [0..<length ls] =
             map (\<lambda>i. (y + lh) + int i * lh) [0..<length ls]"
    by (simp add: algebra_simps)
  finally show ?case using Cons.IH[of "y + lh"] by (simp add: Let_def)
qed

lemma draw_lines_hd: "ls \<noteq> [] \<Longrightarrow> fst (snd (hd (draw_lines bb sw lh y ls))) = y"
  by (cases ls) (simp_all add: Let_def)

lemma base_size_div:
  "max 38 (min 60 (py_int (of_int w * (51 / 1000)))) = clamp (w * 51 div 1000) 38 60"
proof (cases "0 \<le> w")
  case True
  then show ?thesis using py_int_51[of w] by (simp add: clamp_def)
next
  case False
  then have "(of_int w * (51 / 1000) :: rat) \<le> 0" by (simp add: mult_le_0_iff)
  then have "py_int (of_int w * (51 / 1000)) \<le> 0" by (rule py_int_nonpos)
  moreover have "w * 51 div 1000 < 0" using False by (intro div_neg_pos_less0) simp_all
  ultimately show ?thesis by (simp add: clamp_def)
qed

lemma layout_base_size_div:
  "base_size (fst (caption_layout pil st (w, h) caption position supersample)) = clamp (w * 51 div 1000) 38 60"
  by (simp only: layout_base_size base_size_div)

lemma layout_font_size_nonneg:
  "0 \<le> supersample \<Longrightarrow> 0 \<le> font_size (fst (caption_layout pil st (w, h) caption position supersample))"
  by (simp add: layout_font_size layout_base_size_div clamp_def)

text \<open>The lines of a short caption under \<open>demo_pil\<close>, for the concrete evaluations.\<close>

lemma demo_lines:
  "lines (fst (caption_layout demo_pil empty_state (w, h) (py_str ''hi there'') position supersample)) =
     wrap_text (py_str ''hi there'') (fixed_pitch 10) (py_int (of_int (w * supersample) * (88 / 100)))"
  by (simp add: caption_layout_def Let_def split_def TIKTOK_STYLE_def get_font_def demo_pil_def no_fonts_def
        empty_state_def FONT_PATHS_def)

lemma wrap_hi_there:
  "80 \<le> mw \<Longrightarrow> wrap_text (py_str ''hi there'') (fixed_pitch 10) mw = [py_str ''hi there'']"
  by (simp add: py_str_def wrap_text_def py_split_def isspace_def py_strip_def text_width_def
        fixed_pitch_def Let_def)

section \<open>Font size\<close>

text \<open>
  C2, as the code has it. For every image width the font size before supersample scaling
  is the clamp to 38..60 of the width times 0.051 truncated to an integer (not rounded),
  and the size asked of the font is that times the supersample factor. Widths 828, 200
  and 2000 give 42, 38 and 60.
\<close>

theorem font_size_clamp_truncates:
  "base_size (fst (caption_layout pil st (w, h) caption position supersample)) = clamp (w * 51 div 1000) 38 60
   \<and> font_size (fst (caption_layout pil st (w, h) caption position supersample)) =
       clamp (w * 51 div 1000) 38 60 * supersample
   \<and> base_size (fst (caption_layout pil st (828, h) caption position supersample)) = 42
   \<and> base_size (fst (caption_layout pil st (200, h) caption position supersample)) = 38
   \<and> base_size (fst (caption_layout pil st (2000, h) caption position supersample)) = 60"
  by (simp add: layout_font_size layout_base_size_div clamp_def)

text \<open>
  With rounding the claim fails: at width 800 the product is 40.8, the code computes 40
  and the rounded clamp is 41.
\<close>

theorem font_size_round_counterexample:
  "base_size (fst (caption_layout demo_pil empty_state (800, 1422) (py_str ''hi there'') ''upper'' 2)) = 40
   \<and> spec_font_size 800 = 41"
  by (simp add: layout_base_size_div clamp_def spec_font_size_def spec_round_def round_def
      floor_numeral_div_rat)

section \<open>Vertical placement\<close>

text \<open>
  C3, as the code has it. In upper placement (any position other than \<open>"center"\<close> and
  \<open>"bottom"\<close>) the block starts at the height of the supersampled canvas times 0.18,
  truncated to an integer; the value does not depend on the caption, and the first line is
  drawn there.
\<close>

theorem upper_start_y_truncates:
  assumes "position \<noteq> ''center''" "position \<noteq> ''bottom''" "0 \<le> h" "0 \<le> supersample"
  shows "start_y (fst (caption_layout pil st (w, h) caption position supersample)) =
           (h * supersample * 18) div 100
   \<and> (lines (fst (caption_layout pil st (w, h) caption position supersample)) \<noteq> [] \<longrightarrow>
        fst (snd (hd (texts (fst (caption_layout pil st (w, h) caption position supersample))))) =
          (h * supersample * 18) div 100)"
proof -
  have "0 \<le> h * supersample" using assms by simp
  then have "start_y (fst (caption_layout pil st (w, h) caption position supersample)) =
               (h * supersample * 18) div 100"
    using assms(1,2) py_int_18[of "h * supersample"] by (simp add: layout_start_y)
  then show ?thesis by (simp add: layout_texts draw_lines_hd)
qed

theorem upper_start_y_truncates_witness:
  "''upper'' \<noteq> ''center'' \<and> ''upper'' \<noteq> ''bottom'' \<and> (0::int) \<le> 1920 \<and> (0::int) \<le> 2
   \<and> start_y (fst (caption_layout demo_pil empty_state (1080, 1920) (py_str ''hi there'') ''upper'' 2)) = 691
   \<and> lines (fst (caption_layout demo_pil empty_state (1080, 1920) (py_str ''hi there'') ''upper'' 2)) \<noteq> []
   \<and> fst (snd (hd (texts (fst (caption_layout demo_pil empty_state (1080, 1920) (py_str ''hi there'') ''upper'' 2))))) = 691"
proof -
  have l: "lines (fst (caption_layout demo_pil empty_state (1080, 1920) (py_str ''hi there'') ''upper'' 2)) =
             [py_str ''hi there'']"
    by (simp add: demo_lines wrap_hi_there py_int_def floor_numeral_div_rat)
  show ?thesis
    using upper_start_y_truncates[of "''upper''" 1920 2 demo_pil empty_state 1080 "py_str ''hi there''"] l
    by (simp add: py_str_def)
qed

text \<open>
  With rounding the claim fails: on a 1080 by 1920 image with supersample factor 1 the
  block starts at 345, and 1920 times 0.18, rounded, is 346.
\<close>

theorem upper_start_y_round_counterexample:
  "start_y (fst (caption_layout demo_pil empty_state (1080, 1920) (py_str ''hi there'') ''upper'' 1)) = 345
   \<and> spec_round 1920 (18 / 100) = 346"
  by (simp add: layout_start_y spec_round_def round_def py_int_def floor_numeral_div_rat)

text \<open>
  C7, as the code has it. In bottom placement the block starts at the height of the
  supersampled canvas, minus that height times 0.12 truncated to an integer, minus the
  total block height; so the block ends exactly at the bottom margin.
\<close>

theorem bottom_start_y_truncates:
  assumes "position = ''bottom''" "0 \<le> h" "0 \<le> supersample"
  shows "start_y (fst (caption_layout pil st (w, h) caption position supersample)) =
           h * supersample - (h * supersample * 12) div 100
           - total_height (fst (caption_layout pil st (w, h) caption position supersample))
   \<and> start_y (fst (caption_layout pil st (w, h) caption position supersample))
       + total_height (fst (caption_layout pil st (w, h) caption position supersample)) =
           h * supersample - (h * supersample * 12) div 100"
proof -
  have "0 \<le> h * supersample" using assms by simp
  then show ?thesis
    using assms(1) py_int_12[of "h * supersample"] by (simp add: layout_start_y)
qed

theorem bottom_start_y_truncates_witness:
  "''bottom'' = ''bottom'' \<and> (0::int) \<le> 1920 \<and> (0::int) \<le> 2
   \<and> total_height (fst (caption_layout demo_pil empty_state (1080, 1920) (py_str ''hi there'') ''bottom'' 2)) = 116
   \<and> start_y (fst (caption_layout demo_pil empty_state (1080, 1920) (py_str ''hi there'') ''bottom'' 2)) = 3264"
proof -
  have l: "lines (fst (caption_layout demo_pil empty_state (1080, 1920) (py_str ''hi there'') ''bottom'' 2)) =
             [py_str ''hi there'']"
    by (simp add: demo_lines wrap_hi_there py_int_def floor_numeral_div_rat)
  have t: "total_height (fst (caption_layout demo_pil empty_state (1080, 1920) (py_str ''hi there'') ''bottom'' 2)) = 116"
    by (simp add: layout_total_height layout_line_height layout_font_size layout_base_size_div clamp_def l
        py_int_def floor_numeral_div_rat)
  show ?thesis
    using bottom_start_y_truncates[of "''bottom''" 1920 2 demo_pil empty_state 1080 "py_str ''hi there''"] t
    by simp
qed

text \<open>
  With rounding the claim fails: on a 1080 by 1920 image with the default supersample
  factor 2 the canvas is 3840 high, the margin is 460 and the block starts at 3264; the
  rounded margin is 461, which would put it at 3263.
\<close>

theorem bottom_start_y_round_counterexample:
  "start_y (fst (caption_layout demo_pil empty_state (1080, 1920) (py_str ''hi there'') ''bottom'' 2)) = 3264
   \<and> 1920 * 2 - spec_round (1920 * 2) (12 / 100)
       - total_height (fst (caption_layout demo_pil empty_state (1080, 1920) (py_str ''hi there'') ''bottom'' 2)) = 3263"
proof -
  have l: "lines (fst (caption_layout demo_pil empty_state (1080, 1920) (py_str ''hi there'') ''bottom'' 2)) =
             [py_str ''hi there'']"
    by (simp add: demo_lines wrap_hi_there py_int_def floor_numeral_div_rat)
  have t: "total_height (fst (caption_layout demo_pil empty_state (1080, 1920) (py_str ''hi there'') ''bottom'' 2)) = 116"
    by (simp add: layout_total_height layout_line_height layout_font_size layout_base_size_div clamp_def l
        py_int_def floor_numeral_div_rat)
  show ?thesis
    by (simp add: layout_start_y t spec_round_def round_def py_int_def floor_numeral_div_rat)
qed

section \<open>Block height\<close>

text \<open>
  C6, as the code has it. In every placement mode the line height is the font size times
  1.06 truncated to an integer, the total block height is the number of wrapped lines
  times that line height, and successive lines are drawn one line height apart.
\<close>

theorem total_height_truncates:
  assumes "0 \<le> supersample"
  shows "line_height (fst (caption_layout pil st (w, h) caption position supersample)) =
           (font_size (fst (caption_layout pil st (w, h) caption position supersample)) * 106) div 100
   \<and> total_height (fst (caption_layout pil st (w, h) caption position supersample)) =
           int (length (lines (fst (caption_layout pil st (w, h) caption position supersample)))) *
           ((font_size (fst (caption_layout pil st (w, h) caption position supersample)) * 106) div 100)
   \<and> map (\<lambda>t. fst (snd t)) (texts (fst (caption_layout pil st (w, h) caption position supersample))) =
         map (\<lambda>i. start_y (fst (caption_layout pil st (w, h) caption position supersample)) +
                   int i * ((font_size (fst (caption_layout pil st (w, h) caption position supersample)) * 106) div 100))
             [0..<length (lines (fst (caption_layout pil st (w, h) caption position supersample)))]"
proof -
  let ?L = "fst (caption_layout pil st (w, h) caption position supersample)"
  have lh: "line_height ?L = (font_size ?L * 106) div 100"
    using py_int_106[OF layout_font_size_nonneg[OF assms]] by (simp only: layout_line_height)
  moreover have "total_height ?L = int (length (lines ?L)) * line_height ?L"
    by (rule layout_total_height)
  moreover have "map (\<lambda>t. fst (snd t)) (texts ?L) =
         map (\<lambda>i. start_y ?L + int i * line_height ?L) [0..<length (lines ?L)]"
    by (subst layout_texts) (rule draw_lines_ys)
  ultimately show ?thesis by (simp only:)
qed

theorem total_height_truncates_witness:
  "(0::int) \<le> 2
   \<and> font_size (fst (caption_layout demo_pil empty_state (200, 300) (py_str ''hi there'') ''center'' 2)) = 76
   \<and> line_height (fst (caption_layout demo_pil empty_state (200, 300) (py_str ''hi there'') ''center'' 2)) = 80
   \<and> total_height (fst (caption_layout demo_pil empty_state (200, 300) (py_str ''hi there'') ''center'' 2)) = 80
   \<and> map (\<lambda>t. fst (snd t)) (texts (fst (caption_layout demo_pil empty_state (200, 300) (py_str ''hi there'') ''center'' 2))) = [260]"
proof -
  have l: "lines (fst (caption_layout demo_pil empty_state (200, 300) (py_str ''hi there'') ''center'' 2)) =
             [py_str ''hi there'']"
    by (simp add: demo_lines wrap_hi_there py_int_def floor_numeral_div_rat)
  have f: "font_size (fst (caption_layout demo_pil empty_state (200, 300) (py_str ''hi there'') ''center'' 2)) = 76"
    by (simp add: layout_font_size layout_base_size_div clamp_def)
  have y: "start_y (fst (caption_layout demo_pil empty_state (200, 300) (py_str ''hi there'') ''center'' 2)) = 260"
    by (simp add: layout_start_y layout_total_height layout_line_height l f py_int_def floor_numeral_div_rat)
  show ?thesis
    using total_height_truncates[of 2 demo_pil empty_state 200 300 "py_str ''hi there''" "''center''"] l f y
    by simp
qed

text \<open>
  With rounding the claim fails: at width 828 and supersample factor 1 the font size is
  42 and 42 times 1.06 is 44.52; the code's one-line block is 44 high, and the rounded
  line height would make it 45.
\<close>

theorem total_height_round_counterexample:
  "total_height (fst (caption_layout demo_pil empty_state (828, 1472) (py_str ''hi there'') ''upper'' 1)) = 44
   \<and> int (length (lines (fst (caption_layout demo_pil empty_state (828, 1472) (py_str ''hi there'') ''upper'' 1))))
       * spec_round (font_size (fst (caption_layout demo_pil empty_state (828, 1472) (py_str ''hi there'') ''upper'' 1)))
           (106 / 100) = 45"
proof -
  have "lines (fst (caption_layout demo_pil empty_state (828, 1472) (py_str ''hi there'') ''upper'' 1)) =
          [py_str ''hi there'']"
    by (simp add: demo_lines wrap_hi_there py_int_def floor_numeral_div_rat)
  then show ?thesis
    by (simp add: layout_total_height layout_line_height layout_font_size layout_base_size_div clamp_def
        spec_round_def round_def py_int_def floor_numeral_div_rat)
qed

section \<open>Font resolution\<close>

lemma try_fonts_fst:
  "fst (try_fonts env sz ps st) =
     (case first_loadable env sz ps of Some f \<Rightarrow> f | None \<Rightarrow> load_default env)"
  by (induction ps arbitrary: st)
     (auto simp: first_loadable_def loads_at_def Let_def split: sum.splits option.splits)

lemma try_fonts_cache:
  "font_cache (snd (try_fonts env sz ps st)) =
     (case first_loadable env sz ps of
        Some f \<Rightarrow> (font_cache st)((''tiktok'', sz) \<mapsto> f)
      | None \<Rightarrow> font_cache st)"
  by (induction ps arbitrary: st)
     (auto simp: first_loadable_def loads_at_def Let_def split: sum.splits option.splits)

lemma get_font_hit:
  "font_cache st (''tiktok'', sz) = Some f \<Longrightarrow> get_font env sz st = (f, st)"
  by (simp add: get_font_def)

lemma get_font_miss:
  "font_cache st (''tiktok'', sz) = None \<Longrightarrow> get_font env sz st = try_fonts env sz (FONT_PATHS env) st"
  by (simp add: get_font_def)

lemma first_loadable_bold_only: "first_loadable bold_only 84 (FONT_PATHS bold_only) = Some 84"
  by (simp add: first_loadable_def loads_at_def FONT_PATHS_def bold_only_def)

lemma first_loadable_no_fonts: "first_loadable no_fonts 84 (FONT_PATHS no_fonts) = None"
  by (simp add: first_loadable_def loads_at_def FONT_PATHS_def no_fonts_def)

text \<open>
  C8. On a cache that holds what earlier calls stored, \<open>get_font\<close> returns, for every
  size, the font of the first candidate of \<open>FONT_PATHS\<close> that exists and loads at that
  size, and the cache holds it under \<open>("tiktok", size)\<close> afterwards; candidates that are
  missing or raise are passed over; when none loads the result is the built-in default
  font. The call always returns a font, and the cache stays as described.
\<close>

theorem get_font_first_loadable:
  assumes "cache_ok env st"
  shows "fst (get_font env sz st) =
           (case first_loadable env sz (FONT_PATHS env) of Some f \<Rightarrow> f | None \<Rightarrow> load_default env)
   \<and> (\<forall>f. first_loadable env sz (FONT_PATHS env) = Some f \<longrightarrow>
          font_cache (snd (get_font env sz st)) (''tiktok'', sz) = Some f)
   \<and> cache_ok env (snd (get_font env sz st))"
proof (cases "font_cache st (''tiktok'', sz)")
  case None
  then show ?thesis
    using assms
    by (auto simp: get_font_miss try_fonts_fst try_fonts_cache cache_ok_def split: option.splits)
next
  case (Some f)
  then have "first_loadable env sz (FONT_PATHS env) = Some f"
    using assms by (simp add: cache_ok_def)
  then show ?thesis using Some assms by (simp add: get_font_hit)
qed

theorem get_font_first_loadable_witness:
  "cache_ok bold_only empty_state
   \<and> first_loadable bold_only 84 (FONT_PATHS bold_only) = Some 84
   \<and> fst (get_font bold_only 84 empty_state) = 84
   \<and> font_cache (snd (get_font bold_only 84 empty_state)) (''tiktok'', 84) = Some 84
   \<and> cache_ok no_fonts empty_state
   \<and> first_loadable no_fonts 84 (FONT_PATHS no_fonts) = None
   \<and> fst (get_font no_fonts 84 empty_state) = 10"
proof -
  have ok: "cache_ok bold_only empty_state" by (simp add: cache_ok_def empty_state_def)
  have ok': "cache_ok no_fonts empty_state" by (simp add: cache_ok_def empty_state_def)
  show ?thesis
    using get_font_first_loadable[OF ok, of 84] get_font_first_loadable[OF ok', of 84] ok ok'
      first_loadable_bold_only first_loadable_no_fonts
    by (simp add: no_fonts_def)
qed

text \<open>
  C9, as the code has it. When the key \<open>("tiktok", size)\<close> is already in the cache, or
  some candidate exists and loads at the size, the cache holds the returned font under
  that key after the call, and a second call with the same size returns the same font and
  leaves the whole state as it was: the cache and the record of \<open>truetype\<close> calls. When
  the key is absent and no candidate loads, the call returns the built-in default font and
  the cache stays as it was.
\<close>

theorem get_font_idempotent_when_loaded:
  "(font_cache st (''tiktok'', sz) \<noteq> None \<or> first_loadable env sz (FONT_PATHS env) \<noteq> None \<longrightarrow>
      font_cache (snd (get_font env sz st)) (''tiktok'', sz) = Some (fst (get_font env sz st)) \<and>
      get_font env sz (snd (get_font env sz st)) = get_font env sz st)
   \<and> (font_cache st (''tiktok'', sz) = None \<and> first_loadable env sz (FONT_PATHS env) = None \<longrightarrow>
      fst (get_font env sz st) = load_default env \<and>
      font_cache (snd (get_font env sz st)) = font_cache st)"
proof (cases "font_cache st (''tiktok'', sz)")
  case (Some f)
  then show ?thesis by (simp add: get_font_hit)
next
  case None
  show ?thesis
  proof (cases "first_loadable env sz (FONT_PATHS env)")
    case fl: None
    then show ?thesis using None by (simp add: get_font_miss try_fonts_fst try_fonts_cache)
  next
    case (Some f)
    have c: "font_cache (snd (get_font env sz st)) (''tiktok'', sz) = Some (fst (get_font env sz st))"
      using None Some by (simp add: get_font_miss try_fonts_fst try_fonts_cache)
    have "get_font env sz (snd (get_font env sz st)) = (fst (get_font env sz st), snd (get_font env sz st))"
      using c by (rule get_font_hit)
    then show ?thesis using c Some by simp
  qed
qed

theorem get_font_idempotent_when_loaded_witness:
  "first_loadable bold_only 84 (FONT_PATHS bold_only) \<noteq> None
   \<and> get_font bold_only 84 empty_state =
       (84, \<lparr> font_cache = [(''tiktok'', 84) \<mapsto> 84],
              truetype_calls = [(''/app/fonts/TikTokSans36pt-SemiBold.ttf'', 84),
                                (''/app/fonts/TikTokSans36pt-Bold.ttf'', 84)] \<rparr>)
   \<and> get_font bold_only 84 (snd (get_font bold_only 84 empty_state)) = get_font bold_only 84 empty_state
   \<and> font_cache empty_state (''tiktok'', 84) = None
   \<and> first_loadable no_fonts 84 (FONT_PATHS no_fonts) = None
   \<and> fst (get_font no_fonts 84 empty_state) = 10
   \<and> font_cache (snd (get_font no_fonts 84 empty_state)) = Map.empty"
proof -
  have g: "get_font bold_only 84 empty_state =
       (84, \<lparr> font_cache = [(''tiktok'', 84) \<mapsto> 84],
              truetype_calls = [(''/app/fonts/TikTokSans36pt-SemiBold.ttf'', 84),
                                (''/app/fonts/TikTokSans36pt-Bold.ttf'', 84)] \<rparr>)"
    by (simp add: get_font_def bold_only_def empty_state_def FONT_PATHS_def)
  have e: "font_cache empty_state (''tiktok'', 84) = None" by (simp add: empty_state_def)
  show ?thesis
    using get_font_idempotent_when_loaded[of empty_state 84 bold_only]
      get_font_idempotent_when_loaded[of empty_state 84 no_fonts]
      first_loadable_bold_only first_loadable_no_fonts g e
    by (simp add: no_fonts_def empty_state_def)
qed

text \<open>
  The claim as stated fails when no candidate loads: with \<open>corrupt_fonts\<close> the first call
  stores nothing under the key, and the second call goes through the candidates again
  and calls \<open>truetype\<close> once more.
\<close>

theorem get_font_caches_counterexample:
  "font_cache (snd (get_font corrupt_fonts 84 empty_state)) (''tiktok'', 84) = None
   \<and> truetype_calls (snd (get_font corrupt_fonts 84 empty_state)) =
       [(''/app/fonts/TikTokSans36pt-SemiBold.ttf'', 84)]
   \<and> truetype_calls (snd (get_font corrupt_fonts 84 (snd (get_font corrupt_fonts 84 empty_state)))) =
       [(''/app/fonts/TikTokSans36pt-SemiBold.ttf'', 84), (''/app/fonts/TikTokSans36pt-SemiBold.ttf'', 84)]"
  by (simp add: get_font_def corrupt_fonts_def empty_state_def FONT_PATHS_def)

end
